theory Spec2Isabelle
  imports Main
begin

section \<open>Python strings\<close>

text \<open>
  A Python \<open>str\<close> is modelled as a \<open>string\<close>; a character stands for the code point
  of the same number (0 to 255). The string methods used by \<open>smartio/_main.py\<close> are
  written out below with the results Python gives on these code points.
\<close>

definition startswith :: "string \<Rightarrow> string \<Rightarrow> bool" where
  "startswith s pre = (take (length pre) s = pre)"

definition endswith :: "string \<Rightarrow> string \<Rightarrow> bool" where
  "endswith s suf = (length suf \<le> length s \<and> drop (length s - length suf) s = suf)"

text \<open>\<open>s[:-k]\<close>: Python reads \<open>-0\<close> as \<open>0\<close>, so \<open>s[:-0]\<close> is empty.\<close>

definition slice_to_neg :: "string \<Rightarrow> nat \<Rightarrow> string" where
  "slice_to_neg s k = (if k = 0 then [] else take (length s - k) s)"

text \<open>\<open>s.split(sep)\<close> for a one-character separator: never empty, keeps empty fields.\<close>

fun split_on :: "char \<Rightarrow> string \<Rightarrow> string list" where
  "split_on sep [] = [[]]"
| "split_on sep (x # xs) =
     (if x = sep then [] # split_on sep xs
      else (case split_on sep xs of
              [] \<Rightarrow> [[x]]
            | w # ws \<Rightarrow> (x # w) # ws))"

text \<open>\<open>sep.join(xs)\<close>.\<close>

fun join :: "string \<Rightarrow> string list \<Rightarrow> string" where
  "join sep [] = []"
| "join sep [x] = x"
| "join sep (x # y # ys) = x @ sep @ join sep (y # ys)"

text \<open>\<open>s.rfind(c)\<close>: the index of the last occurrence, or \<open>-1\<close>.\<close>

definition rfind :: "string \<Rightarrow> char \<Rightarrow> int" where
  "rfind s c =
     (if c \<in> set s then int (length s) - 1 - int (length (takeWhile (\<lambda>x. x \<noteq> c) (rev s)))
      else - 1)"

text \<open>\<open>str.isspace\<close> on the code points below 256.\<close>

definition isspace :: "char \<Rightarrow> bool" where
  "isspace c = (of_char c \<in> {9, 10, 11, 12, 13, 28, 29, 30, 31, 32, 133, 160 :: nat})"

definition strip :: "string \<Rightarrow> string" where
  "strip s = rev (dropWhile isspace (rev (dropWhile isspace s)))"

text \<open>
  \<open>str.lower\<close> on the code points below 256: the letters \<open>A\<close> to \<open>Z\<close> and the
  Latin-1 capitals \<open>0xC0\<close> to \<open>0xDE\<close> (without the multiplication sign \<open>0xD7\<close>)
  move up by 32, which sets the bit of value 32; everything else stays.
\<close>

definition isupper_latin1 :: "char \<Rightarrow> bool" where
  "isupper_latin1 c = (let n = (of_char c :: nat) in
     (65 \<le> n \<and> n \<le> 90) \<or> (192 \<le> n \<and> n \<le> 222 \<and> n \<noteq> 215))"

definition lower_char :: "char \<Rightarrow> char" where
  "lower_char c =
     (if isupper_latin1 c
      then (case c of Char b0 b1 b2 b3 b4 b5 b6 b7 \<Rightarrow> Char b0 b1 b2 b3 b4 True b6 b7)
      else c)"

definition lower :: "string \<Rightarrow> string" where
  "lower s = map lower_char s"

section \<open>Errors\<close>

text \<open>
  The exceptions that the modelled code raises or lets through. \<open>KeyError\<close> carries the
  missing key, \<open>UnsupportedOperationError\<close> its message, the two permission errors of
  \<open>smartio/_errors.py\<close> their \<open>key\<close>. \<open>FileNotFoundError\<close>, \<open>PermissionError\<close>,
  \<open>IsADirectoryError\<close>, \<open>NotADirectoryError\<close> and the two permission errors are subclasses
  of \<open>OSError\<close>;
  \<open>OSError\<close> itself stands for any other operating-system failure (a full disk, say).
\<close>

datatype error =
    KeyError string
  | ValueError string
  | TypeError
  | AttributeError
  | UnsupportedOperationError string
  | ReadPermissionsError string
  | WritePermissionsError string
  | FileNotFoundError
  | PermissionError
  | IsADirectoryError
  | NotADirectoryError
  | OSError

text \<open>What \<open>except OSError\<close> catches.\<close>

fun is_OSError :: "error \<Rightarrow> bool" where
  "is_OSError (ReadPermissionsError k) = True"
| "is_OSError (WritePermissionsError k) = True"
| "is_OSError FileNotFoundError = True"
| "is_OSError PermissionError = True"
| "is_OSError IsADirectoryError = True"
| "is_OSError NotADirectoryError = True"
| "is_OSError OSError = True"
| "is_OSError e = False"

section \<open>CompressionFormat\<close>

text \<open>The enum of \<open>_main.py\<close>; \<open>zip\<close> is written \<open>zip_fmt\<close>.\<close>

datatype CompressionFormat = gz | zip_fmt | bz2 | xz | zstd | lz4 | none

text \<open>Iterating the enum class gives the members in the order of their definition.\<close>

definition members :: "CompressionFormat list" where
  "members = [gz, zip_fmt, bz2, xz, zstd, lz4, none]"

fun name :: "CompressionFormat \<Rightarrow> string" where
  "name gz = ''gz''"
| "name zip_fmt = ''zip''"
| "name bz2 = ''bz2''"
| "name xz = ''xz''"
| "name zstd = ''zstd''"
| "name lz4 = ''lz4''"
| "name none = ''none''"

text \<open>\<open>CompressionFormat[key]\<close>: the member of that name, or \<open>KeyError\<close>.\<close>

definition getitem :: "string \<Rightarrow> error + CompressionFormat" where
  "getitem key =
     (case find (\<lambda>c. name c = key) members of
        None \<Rightarrow> Inl (KeyError key)
      | Some c \<Rightarrow> Inr c)"

text \<open>
  \<open>list\<close> and \<open>list_non_empty\<close> return Python sets, whose iteration order is not fixed.
  The loops over them take the order as an argument; these lists are one such order.
\<close>

definition list :: "CompressionFormat list" where
  "list = members"

definition list_non_empty :: "CompressionFormat list" where
  "list_non_empty = filter (\<lambda>c. c \<noteq> none) members"

definition full_name :: "CompressionFormat \<Rightarrow> string" where
  "full_name c = (if c = gz then ''gzip'' else if c = bz2 then ''bzip2'' else name c)"

definition is_compressed :: "CompressionFormat \<Rightarrow> bool" where
  "is_compressed c = (c \<noteq> none)"

definition pandas_value :: "CompressionFormat \<Rightarrow> string option" where
  "pandas_value c =
     (if c = none then None
      else if c = gz then Some ''gzip''
      else if c = lz4 then Some ''''
      else Some (name c))"

definition suffix :: "CompressionFormat \<Rightarrow> string" where
  "suffix c =
     (if c = none then ''''
      else if c = zstd then ''.zst''
      else ''.'' @ name c)"

text \<open>
  \<open>of\<close>: its argument is a string or a member. The lookup by full name runs over the set
  \<open>list()\<close>, in the order \<open>order\<close>, and compares the argument as it was given. The
  \<open>raise\<close> at the end re-raises the \<open>KeyError\<close> of the lookup by name.
\<close>

datatype token = Str string | Fmt CompressionFormat

definition of_token_in :: "CompressionFormat list \<Rightarrow> token \<Rightarrow> error + CompressionFormat" where
  "of_token_in order t =
     (case t of
        Fmt c \<Rightarrow> Inr c
      | Str s \<Rightarrow>
          (case getitem (lower (strip s)) of
             Inr c \<Rightarrow> Inr c
           | Inl e \<Rightarrow>
               (case find (\<lambda>f. s = full_name f) order of
                  Some f \<Rightarrow> Inr f
                | None \<Rightarrow> Inl e)))"

definition of_token :: "token \<Rightarrow> error + CompressionFormat" where
  "of_token t = of_token_in list t"

section \<open>Paths\<close>

text \<open>
  \<open>pathlib\<close>'s pure POSIX paths (Python 3.10 to 3.13): a root (\<open>''''\<close>, \<open>''/''\<close> or
  \<open>''//''\<close>) and the components that are neither empty nor \<open>''.''\<close>.
\<close>

datatype Path = Path (root: string) (parts: "string list")

definition is_sep :: "char \<Rightarrow> bool" where
  "is_sep c = (c = CHR ''/'')"

definition Path_of :: "string \<Rightarrow> Path" where
  "Path_of s =
     (let n = length (takeWhile is_sep s);
          rel = dropWhile is_sep s
      in Path (if n = 0 then '''' else if n = 2 then ''//'' else ''/'')
              (filter (\<lambda>x. x \<noteq> '''' \<and> x \<noteq> ''.'') (split_on CHR ''/'' rel)))"

definition str_path :: "Path \<Rightarrow> string" where
  "str_path p =
     (if root p = '''' \<and> parts p = [] then ''.'' else root p @ join ''/'' (parts p))"

definition path_name :: "Path \<Rightarrow> string" where
  "path_name p = (if parts p = [] then '''' else last (parts p))"

definition path_suffix :: "Path \<Rightarrow> string" where
  "path_suffix p =
     (let nm = path_name p; i = rfind nm CHR ''.''
      in if 0 < i \<and> i < int (length nm) - 1 then drop (nat i) nm else '''')"

definition path_suffixes :: "Path \<Rightarrow> string list" where
  "path_suffixes p =
     (let nm = path_name p
      in if endswith nm ''.'' then []
         else map (\<lambda>s. CHR ''.'' # s)
                (tl (split_on CHR ''.'' (dropWhile (\<lambda>c. c = CHR ''.'') nm))))"

definition path_parent :: "Path \<Rightarrow> Path" where
  "path_parent p = Path (root p) (butlast (parts p))"

text \<open>\<open>p / key\<close> for a string \<open>key\<close>: an absolute \<open>key\<close> replaces \<open>p\<close>.\<close>

definition truediv :: "Path \<Rightarrow> string \<Rightarrow> Path" where
  "truediv p key =
     (let q = Path_of key
      in if root q \<noteq> '''' then q else Path (root p) (parts p @ parts q))"

section \<open>Suffixes and paths\<close>

text \<open>\<open>strip_suffix\<close>: the loop runs over the set \<open>list_non_empty()\<close>, in the order \<open>order\<close>.\<close>

fun strip_suffix_loop :: "CompressionFormat list \<Rightarrow> Path \<Rightarrow> Path" where
  "strip_suffix_loop [] path = path"
| "strip_suffix_loop (c # cs) path =
     (if endswith (path_name path) (suffix c)
      then truediv (path_parent path) (slice_to_neg (path_name path) (length (suffix c)))
      else strip_suffix_loop cs path)"

definition strip_suffix_in :: "CompressionFormat list \<Rightarrow> string \<Rightarrow> Path" where
  "strip_suffix_in order path = strip_suffix_loop order (Path_of path)"

definition strip_suffix :: "string \<Rightarrow> Path" where
  "strip_suffix path = strip_suffix_in list_non_empty path"

fun from_suffix_loop :: "CompressionFormat list \<Rightarrow> string \<Rightarrow> CompressionFormat" where
  "from_suffix_loop [] sfx = none"
| "from_suffix_loop (c # cs) sfx = (if sfx = suffix c then c else from_suffix_loop cs sfx)"

definition from_suffix :: "string \<Rightarrow> CompressionFormat" where
  "from_suffix sfx = from_suffix_loop members sfx"

definition from_path :: "string \<Rightarrow> CompressionFormat" where
  "from_path path =
     (let p = Path_of path;
          sfx = (if startswith (path_name p) ''.'' \<and> count_list (path_name p) CHR ''.'' = 1
                 then path_name p
                 else path_suffix p)
      in from_suffix sfx)"

section \<open>Files, libraries and faults\<close>

text \<open>
  \<open>SmartIo\<close> works on the file system through \<open>pandas.io.common.get_handle\<close>,
  \<open>lz4.frame\<close>, \<open>os\<close> and \<open>datetime\<close>. None of them belongs to the repository; this
  section states what the model takes from them.

  A file system maps a path to a directory or to a file with its read permission, its
  write permission and its content. The current directory is the path without parts and
  has its entry like every other directory; a file that has an entry is taken to lie in
  a directory. Paths are compared as \<open>pathlib\<close> parses them; links and \<open>..\<close> are not
  resolved, and directories carry no permissions.
  A file-like object (the \<open>buff\<close> of \<open>path_or_buff\<close>) is a number, and \<open>buffers\<close> gives
  its content and the position of its next read or write.
\<close>

datatype node = Dir | File bool bool string

record world =
  files :: "Path \<rightharpoonup> node"
  buffers :: "nat \<Rightarrow> string \<times> nat"

text \<open>\<open>path_or_buff\<close>: \<open>None\<close>, a path (a \<open>str\<close> or a \<open>PurePath\<close>, given as text), or a file-like object.\<close>

datatype target = NoTarget | PathTarget string | Buffer nat

text \<open>
  Of the keyword arguments only \<open>compression\<close> is looked at by \<open>SmartIo\<close>; the model
  keeps that one. \<open>None\<close> means that the caller did not pass it.
\<close>

type_synonym kwargs = "token option"

text \<open>
  What goes wrong in the one \<open>get_handle\<close> block of a call for a reason that the file
  system above does not show (a full disk, a failing device): nothing; the opening; the
  \<open>write\<close> after \<open>n\<close> characters have reached the file; or the flush at the end of the
  \<open>with\<close> block, when the handle is closed, after \<open>n\<close> characters. The handle is
  buffered: a content that fits its buffer reaches the file only when the handle is
  closed, so that a failing device shows as a failure of the closing; a failure of
  \<open>write\<close> itself needs a content larger than the buffer.
\<close>

datatype fault = NoFault | OpenFails error | WriteFails nat error | CloseFails nat error

text \<open>
  The libraries and the operating system:
  \<^item> \<open>isoformat k timespec\<close> is the outcome of the \<open>k\<close>-th evaluation of
    \<open>datetime.now().isoformat(timespec=timespec)\<close> in a call;
  \<^item> \<open>encode c\<close> and \<open>decode c\<close> are what the handle of \<open>get_handle\<close> (and, for \<open>lz4\<close>,
    of \<open>lz4.frame.open\<close>) writes for a content and reads from a file under the scheme \<open>c\<close>;
  \<^item> \<open>handle_fault\<close>, see above; \<open>open_fault p\<close> is an error of \<open>open\<close> for reading
    that the file system above does not show; \<open>replace_fault\<close> one of \<open>os.replace\<close>;
  \<^item> \<open>lz4_installed\<close> tells whether \<open>import lz4.frame\<close> succeeded; without it
    \<open>lz4.frame\<close> is \<open>None\<close> and \<open>lz4.frame.open\<close> raises \<open>AttributeError\<close>;
  \<^item> \<open>lz4_unwritten\<close> is the content of a file that \<open>lz4.frame\<close> opened for writing and
    closed without data;
  \<^item> \<open>bytes_handle_error\<close> is the error of reading through \<open>get_handle\<close> when it is given
    a \<open>bytes\<close> object, which is neither a path nor a file-like object.
\<close>

record lib =
  isoformat :: "nat \<Rightarrow> string \<Rightarrow> error + string"
  encode :: "CompressionFormat \<Rightarrow> string \<Rightarrow> string"
  decode :: "CompressionFormat \<Rightarrow> string \<Rightarrow> error + string"
  handle_fault :: fault
  open_fault :: "Path \<Rightarrow> error option"
  replace_fault :: "error option"
  lz4_installed :: bool
  lz4_unwritten :: string
  bytes_handle_error :: error

text \<open>
  \<open>datetime.isoformat\<close> of CPython: the values of \<open>timespec\<close> are the six below, and any
  other raises \<open>ValueError\<close>. \<open>clock k timespec\<close> is the text of the \<open>k\<close>-th reading of
  the clock.
\<close>

definition timespecs :: "string list" where
  "timespecs = [''auto'', ''hours'', ''minutes'', ''seconds'', ''milliseconds'', ''microseconds'']"

definition cpython_isoformat :: "(nat \<Rightarrow> string \<Rightarrow> string) \<Rightarrow> nat \<Rightarrow> string \<Rightarrow> error + string" where
  "cpython_isoformat clock k timespec =
     (if timespec \<in> set timespecs then Inr (clock k timespec)
      else Inl (ValueError ''Unknown timespec value''))"

text \<open>
  The \<open>compression\<close> that \<open>get_handle\<close> is given, as pandas reads it: nothing, or one of
  its method names. \<open>SmartIo\<close> passes either a \<open>pandas_value\<close> or, in the \<open>lz4\<close> branch
  of \<open>write\<close>, the caller's own argument; the names \<open>infer\<close> and \<open>tar\<close> of pandas cannot
  come that way (\<open>of\<close> raises \<open>KeyError\<close> on them first) and are not told apart from an
  unknown name.
\<close>

definition pandas_method :: "token option \<Rightarrow> error + CompressionFormat" where
  "pandas_method compression =
     (case compression of
        None \<Rightarrow> Inr none
      | Some (Str s) \<Rightarrow>
          (if s = ''gzip'' then Inr gz
           else if s = ''zip'' then Inr zip_fmt
           else if s = ''bz2'' then Inr bz2
           else if s = ''xz'' then Inr xz
           else if s = ''zstd'' then Inr zstd
           else Inl (ValueError ''Unrecognized compression type''))
      | Some (Fmt f) \<Rightarrow> Inl (ValueError ''Unrecognized compression type''))"

subsection \<open>Opening, writing, replacing\<close>

text \<open>
  What stands in the way of a new entry \<open>p\<close>: its directory does not exist
  (\<open>FileNotFoundError\<close>) or is a file (\<open>NotADirectoryError\<close>).
\<close>

definition parent_error :: "world \<Rightarrow> Path \<Rightarrow> error option" where
  "parent_error w p =
     (case files w (path_parent p) of
        None \<Rightarrow> Some FileNotFoundError
      | Some Dir \<Rightarrow> None
      | Some (File r wr s) \<Rightarrow> Some NotADirectoryError)"

text \<open>
  Opening \<open>p\<close> for writing creates the file, in a directory that exists, or, unless the
  mode appends, empties it; the result is the content that the file starts with. Of the
  mode only the letter \<open>a\<close> is read: a mode without it is taken as \<open>w\<close> (with \<open>b\<close> or
  \<open>t\<close>).
\<close>

definition open_write :: "world \<Rightarrow> Path \<Rightarrow> bool \<Rightarrow> error + string \<times> world" where
  "open_write w p appending =
     (case files w p of
        None \<Rightarrow>
          (case parent_error w p of
             Some e \<Rightarrow> Inl e
           | None \<Rightarrow> Inr ('''', w\<lparr>files := (files w)(p \<mapsto> File True True '''')\<rparr>))
      | Some Dir \<Rightarrow> Inl IsADirectoryError
      | Some (File r wr old) \<Rightarrow>
          (if \<not> wr then Inl PermissionError
           else let base = (if appending then old else '''')
                in Inr (base, w\<lparr>files := (files w)(p \<mapsto> File r wr base)\<rparr>)))"

definition put_content :: "world \<Rightarrow> Path \<Rightarrow> string \<Rightarrow> world" where
  "put_content w p s =
     (case files w p of
        Some (File r wr old) \<Rightarrow> w\<lparr>files := (files w)(p \<mapsto> File r wr s)\<rparr>
      | _ \<Rightarrow> w)"

definition open_read :: "lib \<Rightarrow> world \<Rightarrow> Path \<Rightarrow> error + string" where
  "open_read l w p =
     (case open_fault l p of
        Some e \<Rightarrow> Inl e
      | None \<Rightarrow>
          (case files w p of
             None \<Rightarrow>
               (case parent_error w p of
                  Some NotADirectoryError \<Rightarrow> Inl NotADirectoryError
                | _ \<Rightarrow> Inl FileNotFoundError)
           | Some Dir \<Rightarrow> Inl IsADirectoryError
           | Some (File r wr s) \<Rightarrow> (if r then Inr s else Inl PermissionError)))"

text \<open>
  \<open>os.replace(src, dst)\<close>: \<open>dst\<close> becomes the file that \<open>src\<close> was. In the calls of the
  source \<open>src\<close> is the file that the block before has opened.
\<close>

definition os_replace :: "lib \<Rightarrow> world \<Rightarrow> Path \<Rightarrow> Path \<Rightarrow> error + world" where
  "os_replace l w src dst =
     (case replace_fault l of
        Some e \<Rightarrow> Inl e
      | None \<Rightarrow>
          (case files w src of
             None \<Rightarrow> Inl FileNotFoundError
           | Some n \<Rightarrow>
               (case files w dst of
                  Some Dir \<Rightarrow> Inl IsADirectoryError
                | Some (File r wr s) \<Rightarrow> Inr (w\<lparr>files := ((files w)(src := None))(dst \<mapsto> n)\<rparr>)
                | None \<Rightarrow>
                    (case parent_error w dst of
                       Some e \<Rightarrow> Inl e
                     | None \<Rightarrow> Inr (w\<lparr>files := ((files w)(src := None))(dst \<mapsto> n)\<rparr>)))))"

text \<open>
  The block
  \<^verbatim>\<open>with get_handle(p, mode, compression=...) as f: f.handle.write(content)\<close>
  and, with \<open>replace_to = Some dst\<close>, the block of the atomic branch, which has
  \<^verbatim>\<open>os.replace(p, dst)\<close> as its second statement, inside the \<open>with\<close>.
  The steps are those of the source: \<open>get_handle\<close> reads the compression and opens the
  file; \<open>write\<close> may fail part way, and then \<open>os.replace\<close> is not reached; \<open>os.replace\<close>
  runs while the handle is still open; leaving the block closes the handle, which flushes
  what is left to the file, wherever \<open>os.replace\<close> has put it.
\<close>

definition with_get_handle ::
  "lib \<Rightarrow> world \<Rightarrow> Path \<Rightarrow> string \<Rightarrow> token option \<Rightarrow> string \<Rightarrow> Path option \<Rightarrow> (error + unit) \<times> world" where
  "with_get_handle l w p mode compression content replace_to =
     (case pandas_method compression of
        Inl e \<Rightarrow> (Inl e, w)
      | Inr c \<Rightarrow>
          (case handle_fault l of
             OpenFails e \<Rightarrow> (Inl e, w)
           | flt \<Rightarrow>
               (case open_write w p (CHR ''a'' \<in> set mode) of
                  Inl e \<Rightarrow> (Inl e, w)
                | Inr (base, w1) \<Rightarrow>
                    (case flt of
                       WriteFails n e \<Rightarrow> (Inl e, put_content w1 p (base @ take n (encode l c content)))
                     | _ \<Rightarrow>
                         (case (case replace_to of
                                  None \<Rightarrow> Inr (p, w1)
                                | Some dst \<Rightarrow>
                                    (case os_replace l w1 p dst of
                                       Inl e \<Rightarrow> Inl e
                                     | Inr w2 \<Rightarrow> Inr (dst, w2))) of
                            Inl e \<Rightarrow> (Inl e, put_content w1 p (base @ encode l c content))
                          | Inr (q, w2) \<Rightarrow>
                              (case flt of
                                 CloseFails n e \<Rightarrow>
                                   (Inl e, put_content w2 q (base @ take n (encode l c content)))
                               | _ \<Rightarrow> (Inr (), put_content w2 q (base @ encode l c content))))))))"

text \<open>
  Writing \<open>s\<close> to a file-like object (\<open>io.StringIO\<close>, \<open>io.BytesIO\<close>) of content \<open>old\<close> at
  the position \<open>pos\<close>: \<open>s\<close> goes over what is there, and what lies behind it stays. An
  object positioned past its end is first filled with NUL, unless \<open>s\<close> is empty.
\<close>

definition write_at :: "string \<Rightarrow> nat \<Rightarrow> string \<Rightarrow> string" where
  "write_at old pos s =
     (if s = [] then old
      else take pos (old @ replicate (pos - length old) (CHR 0x00)) @ s @ drop (pos + length s) old)"

text \<open>
  The same block on a file-like object: the content is written at the position of the
  object, which moves behind it.
\<close>

definition with_get_handle_buffer ::
  "lib \<Rightarrow> world \<Rightarrow> nat \<Rightarrow> token option \<Rightarrow> string \<Rightarrow> (error + unit) \<times> world" where
  "with_get_handle_buffer l w b compression content =
     (case pandas_method compression of
        Inl e \<Rightarrow> (Inl e, w)
      | Inr c \<Rightarrow>
          (case buffers w b of
             (old, pos) \<Rightarrow>
               (let s = encode l c content
                in (Inr (), w\<lparr>buffers := (buffers w)(b := (write_at old pos s, pos + length s))\<rparr>))))"

text \<open>
  The block
  \<^verbatim>\<open>with lz4.frame.open(str(p), mode="wb") as fp: fp.write()\<close>
  of the source: \<open>write\<close> is called without its argument, which is a \<open>TypeError\<close>, after
  the file has been opened.
\<close>

definition lz4_write_nothing :: "lib \<Rightarrow> world \<Rightarrow> Path \<Rightarrow> (error + unit) \<times> world" where
  "lz4_write_nothing l w p =
     (if \<not> lz4_installed l then (Inl AttributeError, w)
      else (case open_write w p False of
              Inl e \<Rightarrow> (Inl e, w)
            | Inr (base, w1) \<Rightarrow> (Inl TypeError, put_content w1 p (lz4_unwritten l))))"



section \<open>SmartIo\<close>

text \<open>\<open>path.exists()\<close>, \<open>path.is_file()\<close> and \<open>os.access(path, os.R_OK)\<close>.\<close>

definition path_exists :: "world \<Rightarrow> Path \<Rightarrow> bool" where
  "path_exists w p = (files w p \<noteq> None)"

definition is_file :: "world \<Rightarrow> Path \<Rightarrow> bool" where
  "is_file w p = (case files w p of Some (File r wr s) \<Rightarrow> True | _ \<Rightarrow> False)"

definition access_R_OK :: "world \<Rightarrow> Path \<Rightarrow> bool" where
  "access_R_OK w p = (case files w p of None \<Rightarrow> False | Some Dir \<Rightarrow> True | Some (File r wr s) \<Rightarrow> r)"

text \<open>
  \<open>verify_can_read_files\<close>: the loop over the paths. With \<open>attempt\<close>, an \<open>OSError\<close> of
  \<open>open(path, "r")\<close> is caught and \<open>WritePermissionsError\<close> is raised in its place; any
  other exception of \<open>open\<close> passes.
\<close>

fun verify_can_read_files :: "lib \<Rightarrow> world \<Rightarrow> string list \<Rightarrow> bool \<Rightarrow> bool \<Rightarrow> error + unit" where
  "verify_can_read_files l w [] missing_ok attempt = Inr ()"
| "verify_can_read_files l w (p # paths) missing_ok attempt =
     (let path = Path_of p in
      if path_exists w path \<and> \<not> is_file w path
      then Inl (ReadPermissionsError (str_path path))
      else if (\<not> missing_ok \<or> path_exists w path) \<and> \<not> access_R_OK w path
      then Inl (ReadPermissionsError (str_path path))
      else if attempt
      then (case open_read l w path of
              Inl e \<Rightarrow>
                (if is_OSError e then Inl (WritePermissionsError (str_path path)) else Inl e)
            | Inr s \<Rightarrow> verify_can_read_files l w paths missing_ok attempt)
      else verify_can_read_files l w paths missing_ok attempt)"

definition path_or_buff_compression :: "target \<Rightarrow> kwargs \<Rightarrow> error + CompressionFormat" where
  "path_or_buff_compression path_or_buff kwargs =
     (case kwargs of
        Some t \<Rightarrow> of_token t
      | None \<Rightarrow>
          (case path_or_buff of
             PathTarget s \<Rightarrow> Inr (from_path s)
           | _ \<Rightarrow> Inr none))"

text \<open>
  \<open>tmp_path\<close>: \<open>k\<close> counts the readings of the clock in the call of \<open>write\<close>. The two
  \<open>replace\<close> calls delete the colons and the hyphens.
\<close>

definition tmp_path :: "lib \<Rightarrow> nat \<Rightarrow> Path \<Rightarrow> string \<Rightarrow> error + Path" where
  "tmp_path l k path extra =
     (case isoformat l k ''ns'' of
        Inl e \<Rightarrow> Inl e
      | Inr stamp \<Rightarrow>
          (let now = filter (\<lambda>c. c \<noteq> CHR ''-'') (filter (\<lambda>c. c \<noteq> CHR '':'') stamp);
               sfx = concat (path_suffixes path)
           in Inr (truediv (path_parent path) (''.__'' @ extra @ ''.'' @ now @ sfx))))"

text \<open>
  \<open>Path(path_or_buff)\<close> raises \<open>TypeError\<close> on what is not a path, and
  \<open>isinstance(path_or_buff, PathLike)\<close> tells the paths from the rest.
\<close>

definition Path_of_target :: "target \<Rightarrow> error + Path" where
  "Path_of_target path_or_buff =
     (case path_or_buff of PathTarget s \<Rightarrow> Inr (Path_of s) | _ \<Rightarrow> Inl TypeError)"

definition is_PathLike :: "target \<Rightarrow> bool" where
  "is_PathLike path_or_buff = (case path_or_buff of PathTarget s \<Rightarrow> True | _ \<Rightarrow> False)"

text \<open>
  \<^verbatim>\<open>with get_handle(path_or_buff, mode, compression=...) as f: f.handle.write(content)\<close>
  on a path or on a file-like object.
\<close>

definition get_handle_write ::
  "lib \<Rightarrow> world \<Rightarrow> target \<Rightarrow> string \<Rightarrow> token option \<Rightarrow> string \<Rightarrow> (error + unit) \<times> world" where
  "get_handle_write l w path_or_buff mode compression content =
     (case path_or_buff of
        PathTarget s \<Rightarrow> with_get_handle l w (Path_of s) mode compression content None
      | Buffer b \<Rightarrow> with_get_handle_buffer l w b compression content
      | NoTarget \<Rightarrow>
          (Inl (ValueError ''Invalid file path or buffer object type: <class 'NoneType'>''), w))"

text \<open>
  \<open>write\<close> (the name is taken in Isabelle, hence \<open>write_to\<close>). The result is the returned
  value (\<open>content\<close> when there is no target, \<open>None\<close> otherwise) or the exception, and the
  world after the call. In the \<open>lz4\<close> branch \<open>get_handle\<close> is given the caller's keyword
  arguments, in the other branch \<open>compression.pandas_value\<close>.
\<close>

definition write_to ::
  "lib \<Rightarrow> world \<Rightarrow> target \<Rightarrow> string \<Rightarrow> string \<Rightarrow> bool \<Rightarrow> kwargs \<Rightarrow> (error + string option) \<times> world" where
  "write_to l w path_or_buff content mode atomic kwargs =
     (if path_or_buff = NoTarget then (Inr (Some content), w)
      else
       (case path_or_buff_compression path_or_buff kwargs of
          Inl e \<Rightarrow> (Inl e, w)
        | Inr compression \<Rightarrow>
            (if compression = lz4 then
               (if CHR ''a'' \<in> set mode
                then (Inl (UnsupportedOperationError ''Can't append to lz4 (yet)''), w)
                else
                 (case Path_of_target path_or_buff of
                    Inl e \<Rightarrow> (Inl e, w)
                  | Inr path \<Rightarrow>
                      (case tmp_path l 0 path ''tmp'' of
                         Inl e \<Rightarrow> (Inl e, w)
                       | Inr tmp \<Rightarrow>
                           (case with_get_handle l w tmp mode kwargs content None of
                              (Inl e, w1) \<Rightarrow> (Inl e, w1)
                            | (Inr u, w1) \<Rightarrow>
                                (if atomic then
                                   (case tmp_path l 1 path ''tmp'' of
                                      Inl e \<Rightarrow> (Inl e, w1)
                                    | Inr tmp2 \<Rightarrow>
                                        (case lz4_write_nothing l w1 tmp2 of
                                           (Inl e, w2) \<Rightarrow> (Inl e, w2)
                                         | (Inr u2, w2) \<Rightarrow>
                                             (case os_replace l w2 tmp2 path of
                                                Inl e \<Rightarrow> (Inl e, w2)
                                              | Inr w3 \<Rightarrow> (Inr None, w3))))
                                 else
                                   (case lz4_write_nothing l w1 path of
                                      (Inl e, w2) \<Rightarrow> (Inl e, w2)
                                    | (Inr u2, w2) \<Rightarrow> (Inr None, w2)))))))
             else
               (let compression_kw = map_option Str (pandas_value compression) in
                if atomic \<and> is_PathLike path_or_buff then
                  (if CHR ''a'' \<in> set mode
                   then (Inl (UnsupportedOperationError ''Can't append in atomic write''), w)
                   else
                    (case Path_of_target path_or_buff of
                       Inl e \<Rightarrow> (Inl e, w)
                     | Inr path \<Rightarrow>
                         (case tmp_path l 0 path ''tmp'' of
                            Inl e \<Rightarrow> (Inl e, w)
                          | Inr tmp \<Rightarrow>
                              (case with_get_handle l w tmp mode compression_kw content (Some path) of
                                 (Inl e, w1) \<Rightarrow> (Inl e, w1)
                               | (Inr u, w1) \<Rightarrow> (Inr None, w1)))))
                else
                  (case get_handle_write l w path_or_buff mode compression_kw content of
                     (Inl e, w1) \<Rightarrow> (Inl e, w1)
                   | (Inr u, w1) \<Rightarrow> (Inr None, w1))))))"


section \<open>Concrete libraries and file systems\<close>

text \<open>
  A library for the examples, with the \<open>datetime\<close> of CPython at 31 August 2022, noon:
  its codecs leave the content as it is, and nothing fails that the file system does not
  show.
\<close>

definition cpython_lib :: lib where
  "cpython_lib =
     \<lparr>isoformat = cpython_isoformat (\<lambda>k timespec. ''2022-08-31T12:00:00''),
      encode = (\<lambda>c s. s),
      decode = (\<lambda>c s. Inr s),
      handle_fault = NoFault,
      open_fault = (\<lambda>p. None),
      replace_fault = None,
      lz4_installed = True,
      lz4_unwritten = '''',
      bytes_handle_error = TypeError\<rparr>"


text \<open>A current directory with the one file \<open>manifest.txt\<close>, of content \<open>old\<close>.\<close>

definition manifest_world :: world where
  "manifest_world =
     \<lparr>files = [Path '''' [] \<mapsto> Dir,
               Path '''' [''manifest.txt''] \<mapsto> File True True ''old''],
      buffers = (\<lambda>b. ('''', 0))\<rparr>"


section \<open>Properties of the compression registry\<close>

lemma suffix_simps:
  "suffix gz = ''.gz''" "suffix zip_fmt = ''.zip''" "suffix bz2 = ''.bz2''"
  "suffix xz = ''.xz''" "suffix zstd = ''.zst''" "suffix lz4 = ''.lz4''" "suffix none = ''''"
  by (simp_all add: suffix_def)

subsection \<open>C8: the suffixes are unique\<close>

text \<open>
  Claim C8. Two different formats other than \<open>none\<close> have different suffixes, neither of
  them empty, and the suffix of \<open>none\<close> is the empty string.
\<close>
theorem suffix_injective:
  "(a \<noteq> none \<and> b \<noteq> none \<and> a \<noteq> b \<longrightarrow> suffix a \<noteq> suffix b \<and> suffix a \<noteq> '''' \<and> suffix b \<noteq> '''')
   \<and> suffix none = ''''"
  by (cases a; cases b; simp add: suffix_simps)

lemma suffix_inj: "suffix a = suffix b \<Longrightarrow> a = b"
  by (cases a; cases b; simp add: suffix_simps)

lemma from_suffix_loop_hit:
  "c \<in> set cs \<Longrightarrow> from_suffix_loop cs (suffix c) = c"
  by (induction cs) (auto dest: suffix_inj)

lemma from_suffix_loop_miss:
  "\<forall>c \<in> set cs. sfx \<noteq> suffix c \<Longrightarrow> from_suffix_loop cs sfx = none"
  by (induction cs) auto

lemma members_all: "c \<in> set members"
  by (cases c) (simp_all add: members_def)

lemma from_suffix_iff:
  "from_suffix sfx = c \<longleftrightarrow> sfx = suffix c \<or> (c = none \<and> (\<forall>c'. sfx \<noteq> suffix c'))"
proof (cases "\<exists>c'. sfx = suffix c'")
  case True
  then obtain c' where c': "sfx = suffix c'" by blast
  have "from_suffix sfx = c'"
    unfolding from_suffix_def c' by (rule from_suffix_loop_hit) (rule members_all)
  with c' show ?thesis by (auto dest: suffix_inj)
next
  case False
  then have "from_suffix sfx = none"
    unfolding from_suffix_def by (intro from_suffix_loop_miss) blast
  with False show ?thesis by auto
qed

lemma one_dot_form:
  "(startswith nm ''.'' \<and> count_list nm CHR ''.'' = 1) \<longleftrightarrow> (\<exists>s. nm = CHR ''.'' # s \<and> CHR ''.'' \<notin> set s)"
  by (cases nm) (auto simp add: startswith_def count_list_0_iff)

lemmas path_eval = Path_of_def is_sep_def path_name_def path_suffix_def rfind_def startswith_def
  endswith_def path_parent_def truediv_def slice_to_neg_def

subsection \<open>C4: the scheme of a path\<close>

text \<open>
  Claim C4. \<open>from_path\<close> depends on the path through its filename only. A filename that
  is a dot followed by characters without a dot is looked up whole, any other filename by
  its final extension (\<open>Path.suffix\<close>). The lookup returns the format with that suffix, and
  \<open>none\<close> when no format has it. The function is total: no branch of the source raises.
  \<open>from_path("data.csv.gz")\<close> is \<open>gz\<close> and \<open>from_path("data.csv")\<close> is \<open>none\<close>.
\<close>
theorem from_path_by_filename:
  "(path_name (Path_of p) = path_name (Path_of q) \<longrightarrow> from_path p = from_path q)
   \<and> (\<forall>s. path_name (Path_of p) = CHR ''.'' # s \<and> CHR ''.'' \<notin> set s
          \<longrightarrow> from_path p = from_suffix (path_name (Path_of p)))
   \<and> ((\<nexists>s. path_name (Path_of p) = CHR ''.'' # s \<and> CHR ''.'' \<notin> set s)
          \<longrightarrow> from_path p = from_suffix (path_suffix (Path_of p)))
   \<and> (\<forall>c. from_suffix sfx = c \<longleftrightarrow> sfx = suffix c \<or> (c = none \<and> (\<forall>c'. sfx \<noteq> suffix c')))
   \<and> from_path ''data.csv.gz'' = gz
   \<and> from_path ''data.csv'' = none"
proof (intro conjI allI impI)
  assume "path_name (Path_of p) = path_name (Path_of q)"
  then show "from_path p = from_path q"
    by (simp add: from_path_def path_suffix_def Let_def)
next
  fix s assume "path_name (Path_of p) = CHR ''.'' # s \<and> CHR ''.'' \<notin> set s"
  then have "startswith (path_name (Path_of p)) ''.'' \<and> count_list (path_name (Path_of p)) CHR ''.'' = 1"
    unfolding one_dot_form by blast
  then show "from_path p = from_suffix (path_name (Path_of p))"
    by (simp add: from_path_def Let_def)
next
  assume "\<nexists>s. path_name (Path_of p) = CHR ''.'' # s \<and> CHR ''.'' \<notin> set s"
  then have "\<not> (startswith (path_name (Path_of p)) ''.'' \<and> count_list (path_name (Path_of p)) CHR ''.'' = 1)"
    unfolding one_dot_form by blast
  then show "from_path p = from_suffix (path_suffix (Path_of p))"
    by (auto simp add: from_path_def Let_def)
next
  fix c show "from_suffix sfx = c \<longleftrightarrow> sfx = suffix c \<or> (c = none \<and> (\<forall>c'. sfx \<noteq> suffix c'))"
    by (rule from_suffix_iff)
next
  show "from_path ''data.csv.gz'' = gz"
    by (simp add: from_path_def path_eval from_suffix_def members_def suffix_simps)
next
  show "from_path ''data.csv'' = none"
    by (simp add: from_path_def path_eval from_suffix_def members_def suffix_simps)
qed

text \<open>
  The hypotheses of C4 at \<open>.gz\<close> and \<open>dir/.gz\<close> (same filename, one dot in front),
  at \<open>a/b.tar.xz\<close> (final extension) and at the unregistered suffix \<open>.csv\<close>.
\<close>
theorem from_path_by_filename_witness:
  "path_name (Path_of ''.gz'') = path_name (Path_of ''dir/.gz'')
   \<and> from_path ''.gz'' = from_path ''dir/.gz''
   \<and> path_name (Path_of ''.gz'') = CHR ''.'' # ''gz'' \<and> CHR ''.'' \<notin> set ''gz''
   \<and> from_path ''.gz'' = from_suffix ''.gz''
   \<and> (\<nexists>s. path_name (Path_of ''a/b.tar.xz'') = CHR ''.'' # s \<and> CHR ''.'' \<notin> set s)
   \<and> from_path ''a/b.tar.xz'' = from_suffix ''.xz''
   \<and> from_suffix ''.xz'' = xz
   \<and> from_suffix ''.csv'' = none"
proof -
  note T1 = from_path_by_filename [of "''.gz''" "''dir/.gz''" "''.xz''"]
  note T2 = from_path_by_filename [of "''a/b.tar.xz''" "''a/b.tar.xz''" "''.csv''"]
  have n1: "path_name (Path_of ''.gz'') = ''.gz''"
    and n2: "path_name (Path_of ''dir/.gz'') = ''.gz''"
    and n3: "path_name (Path_of ''a/b.tar.xz'') = ''b.tar.xz''"
    and s3: "path_suffix (Path_of ''a/b.tar.xz'') = ''.xz''"
    by (simp_all add: path_eval)
  have a: "from_path ''.gz'' = from_path ''dir/.gz''"
    using T1 n1 n2 by metis
  have b: "from_path ''.gz'' = from_suffix ''.gz''"
    using T1 n1 by auto
  have c: "\<nexists>s. path_name (Path_of ''a/b.tar.xz'') = CHR ''.'' # s \<and> CHR ''.'' \<notin> set s"
    by (simp add: n3)
  have d: "from_path ''a/b.tar.xz'' = from_suffix ''.xz''"
    using T2 c s3 by metis
  have e: "from_suffix ''.xz'' = xz"
    using T1 by (simp add: suffix_simps)
  have "\<forall>c'. ''.csv'' \<noteq> suffix c'"
  proof
    fix c' show "''.csv'' \<noteq> suffix c'" by (cases c') (simp_all add: suffix_simps)
  qed
  then have f: "from_suffix ''.csv'' = none"
    using T2 by blast
  show ?thesis
    using a b c d e f n1 n2 by simp
qed

lemmas str_eval = lower_def strip_def isspace_def lower_char_def isupper_latin1_def

lemma getitem_name: "getitem (name f) = Inr f"
  by (cases f) (simp_all add: getitem_def members_def)

lemma getitem_Inr: "getitem k = Inr f \<Longrightarrow> k = name f"
  by (auto simp add: getitem_def split: option.splits dest: find_Some_iff[THEN iffD1])

lemma getitem_Inl: "getitem k = Inl e \<Longrightarrow> e = KeyError k"
  by (auto simp add: getitem_def split: option.splits)

lemma getitem_miss: "\<forall>f. k \<noteq> name f \<Longrightarrow> getitem k = Inl (KeyError k)"
  by (cases "getitem k") (auto dest: getitem_Inr getitem_Inl)

lemma full_name_simps:
  "full_name gz = ''gzip''" "full_name zip_fmt = ''zip''" "full_name bz2 = ''bzip2''"
  "full_name xz = ''xz''" "full_name zstd = ''zstd''" "full_name lz4 = ''lz4''"
  "full_name none = ''none''"
  by (simp_all add: full_name_def)

lemma full_name_inj: "full_name a = full_name b \<Longrightarrow> a = b"
  by (cases a; cases b; simp add: full_name_simps)

lemma full_name_normal: "lower (strip (full_name f)) = full_name f"
  by (cases f) (simp_all add: full_name_simps str_eval)

lemma find_full_name:
  "f \<in> set order \<Longrightarrow> find (\<lambda>g. full_name f = full_name g) order = Some f"
  by (induction order) (auto dest: full_name_inj)

lemma find_none: "\<forall>g. \<not> P g \<Longrightarrow> find P xs = None"
  by (induction xs) auto

lemma list_complete: "c \<in> set list"
  by (simp add: list_def members_all)

subsection \<open>C5: the scheme of a name\<close>

text \<open>
  Claim C5, as amended. Whatever the order in which the set \<open>list()\<close> is run through:
  a string that, stripped of surrounding white space and put in lower case, is the name of
  a member resolves to that member; a string that is exactly a full name (\<open>gzip\<close>,
  \<open>bzip2\<close>, or a member's name) resolves to its member; a string that, stripped and in
  lower case, is neither a name nor a full name fails with \<open>KeyError\<close>. Hyphens are
  not removed: \<open>g-zip\<close> fails.
\<close>
theorem of_token_normalised:
  assumes "set order = set list"
  shows "(lower (strip s) = name f \<longrightarrow> of_token_in order (Str s) = Inr f)
    \<and> (s = full_name f \<longrightarrow> of_token_in order (Str s) = Inr f)
    \<and> ((\<forall>g. lower (strip s) \<noteq> name g \<and> lower (strip s) \<noteq> full_name g)
         \<longrightarrow> of_token_in order (Str s) = Inl (KeyError (lower (strip s))))
    \<and> of_token_in order (Str ''g-zip'') = Inl (KeyError ''g-zip'')"
proof (intro conjI impI)
  assume "lower (strip s) = name f"
  then show "of_token_in order (Str s) = Inr f"
    by (simp add: of_token_in_def getitem_name)
next
  assume s: "s = full_name f"
  have mem: "f \<in> set order" using assms list_complete by simp
  show "of_token_in order (Str s) = Inr f"
  proof (cases "getitem (lower (strip s))")
    case (Inl e)
    then show ?thesis
      using find_full_name [OF mem] by (simp add: of_token_in_def s)
  next
    case (Inr c)
    then have "full_name f = name c" using getitem_Inr s full_name_normal by metis
    then have "c = f" by (cases f; cases c; simp add: full_name_simps)
    with Inr show ?thesis by (simp add: of_token_in_def)
  qed
next
  assume no: "\<forall>g. lower (strip s) \<noteq> name g \<and> lower (strip s) \<noteq> full_name g"
  then have g: "getitem (lower (strip s)) = Inl (KeyError (lower (strip s)))"
    by (intro getitem_miss) blast
  have "\<forall>g. \<not> s = full_name g"
    using no full_name_normal by metis
  then have "find (\<lambda>g. s = full_name g) order = None" by (rule find_none)
  with g show "of_token_in order (Str s) = Inl (KeyError (lower (strip s)))"
    by (simp add: of_token_in_def)
next
  have n: "lower (strip ''g-zip'') = ''g-zip''" by (simp add: str_eval)
  have "find (\<lambda>g. ''g-zip'' = full_name g) order = None"
  proof (rule find_none, rule allI)
    fix g show "\<not> ''g-zip'' = full_name g" by (cases g) (simp_all add: full_name_simps)
  qed
  moreover have "getitem ''g-zip'' = Inl (KeyError ''g-zip'')"
    by (simp add: getitem_def members_def)
  ultimately show "of_token_in order (Str ''g-zip'') = Inl (KeyError ''g-zip'')"
    by (simp add: of_token_in_def n)
qed

text \<open>
  The hypotheses of the amended C5 in the reversed order of the members: \<open>" GZ "\<close>,
  \<open>"bzip2"\<close> and the unknown \<open>"Brotli"\<close>.
\<close>
theorem of_token_normalised_witness:
  "set (rev list) = set list
   \<and> lower (strip '' GZ '') = name gz \<and> of_token_in (rev list) (Str '' GZ '') = Inr gz
   \<and> ''bzip2'' = full_name bz2 \<and> of_token_in (rev list) (Str ''bzip2'') = Inr bz2
   \<and> (\<forall>g. lower (strip ''Brotli'') \<noteq> name g \<and> lower (strip ''Brotli'') \<noteq> full_name g)
   \<and> of_token_in (rev list) (Str ''Brotli'') = Inl (KeyError ''brotli'')"
proof -
  have o: "set (rev list) = set list" by simp
  have n1: "lower (strip '' GZ '') = name gz" by (simp add: str_eval)
  have n2: "''bzip2'' = full_name bz2" by (simp add: full_name_simps)
  have n3: "lower (strip ''Brotli'') = ''brotli''" by (simp add: str_eval)
  have n4: "\<forall>g. lower (strip ''Brotli'') \<noteq> name g \<and> lower (strip ''Brotli'') \<noteq> full_name g"
  proof
    fix g show "lower (strip ''Brotli'') \<noteq> name g \<and> lower (strip ''Brotli'') \<noteq> full_name g"
      unfolding n3 by (cases g) (simp_all add: full_name_simps)
  qed
  have a: "of_token_in (rev list) (Str '' GZ '') = Inr gz"
    using of_token_normalised [OF o, of "'' GZ ''" gz] n1 by blast
  have b: "of_token_in (rev list) (Str ''bzip2'') = Inr bz2"
    using of_token_normalised [OF o, of "''bzip2''" bz2] n2 by blast
  have c: "of_token_in (rev list) (Str ''Brotli'') = Inl (KeyError ''brotli'')"
    using of_token_normalised [OF o, of "''Brotli''" gz] n4 n3 by simp
  show ?thesis using o n1 n2 n4 a b c by blast
qed

text \<open>
  Claim C5 as stated asks that \<open>g-zip\<close> resolve to the gzip scheme. It does not.
\<close>
theorem of_token_hyphen_counterexample:
  "of_token (Str ''g-zip'') \<noteq> Inr gz"
  by (simp add: of_token_def of_token_in_def getitem_def members_def list_def str_eval
      full_name_def)

lemma endswith_iff: "endswith s suf \<longleftrightarrow> (\<exists>b. s = b @ suf)"
proof
  assume "endswith s suf"
  then have "take (length s - length suf) s @ suf = s"
    unfolding endswith_def using append_take_drop_id [of "length s - length suf" s] by simp
  then show "\<exists>b. s = b @ suf" by (intro exI [of _ "take (length s - length suf) s"]) simp
next
  assume "\<exists>b. s = b @ suf"
  then show "endswith s suf" by (auto simp add: endswith_def)
qed

lemma suffix_nonempty: "c \<noteq> none \<Longrightarrow> suffix c \<noteq> []"
  by (cases c) (simp_all add: suffix_simps)

lemma suffix_unique:
  assumes "c \<noteq> none" "c' \<noteq> none" "b @ suffix c = b' @ suffix c'"
  shows "c = c'"
proof -
  from assms(3) have "rev (b @ suffix c) = rev (b' @ suffix c')" by simp
  then have "rev (suffix c) @ rev b = rev (suffix c') @ rev b'" by simp
  with assms(1,2) show ?thesis
    by (cases c; cases c'; simp add: suffix_simps)
qed

lemma strip_suffix_loop_hit:
  assumes "c \<in> set cs" "none \<notin> set cs" "path_name p = b @ suffix c"
  shows "strip_suffix_loop cs p = truediv (path_parent p) b"
  using assms
proof (induction cs)
  case Nil
  then show ?case by simp
next
  case (Cons c0 cs)
  have c: "c \<noteq> none" using Cons.prems by auto
  have len: "slice_to_neg (b @ suffix c) (length (suffix c)) = b"
    using suffix_nonempty [OF c] by (simp add: slice_to_neg_def)
  show ?case
  proof (cases "endswith (path_name p) (suffix c0)")
    case True
    then obtain b0 where b0: "path_name p = b0 @ suffix c0" unfolding endswith_iff ..
    have "c0 \<noteq> none" using Cons.prems by auto
    then have "c0 = c"
      using suffix_unique [of c0 c b0 b] c b0 Cons.prems(3) by simp
    with True len Cons.prems(3) show ?thesis by simp
  next
    case False
    then have "c0 \<noteq> c" using Cons.prems(3) endswith_iff by blast
    with False Cons show ?thesis by simp
  qed
qed

lemma strip_suffix_loop_miss:
  "\<forall>c \<in> set cs. \<not> endswith (path_name p) (suffix c) \<Longrightarrow> strip_suffix_loop cs p = p"
  by (induction cs) auto

lemma list_non_empty_set: "set list_non_empty = {c. c \<noteq> none}"
  using members_all by (auto simp add: list_non_empty_def)

lemma split_on_nonempty: "split_on sep s \<noteq> []"
  by (induction s) (simp_all split: list.split)

lemma split_on_no_sep: "\<forall>x \<in> set (split_on sep s). sep \<notin> set x"
proof (induction s)
  case Nil
  show ?case by simp
next
  case (Cons a s)
  obtain w ws where w: "split_on sep s = w # ws"
    using split_on_nonempty [of sep s] by (cases "split_on sep s") auto
  with Cons show ?case by simp
qed

lemma split_on_single: "sep \<notin> set s \<Longrightarrow> split_on sep s = [s]"
  by (induction s) auto

lemma Path_of_parts:
  "x \<in> set (parts (Path_of s)) \<Longrightarrow> CHR ''/'' \<notin> set x \<and> x \<noteq> '''' \<and> x \<noteq> ''.''"
  using split_on_no_sep [of "CHR ''/''" "dropWhile is_sep s"]
  by (simp add: Path_of_def Let_def)

lemma path_name_no_sep: "CHR ''/'' \<notin> set (path_name (Path_of s))"
proof (cases "parts (Path_of s) = []")
  case True
  then show ?thesis by (simp add: path_name_def)
next
  case False
  then have "last (parts (Path_of s)) \<in> set (parts (Path_of s))" by simp
  then have "CHR ''/'' \<notin> set (last (parts (Path_of s)))" by (rule Path_of_parts [THEN conjunct1])
  with False show ?thesis by (simp add: path_name_def)
qed

lemma Path_of_component:
  assumes "CHR ''/'' \<notin> set b"
  shows "Path_of b = Path '''' (if b = '''' \<or> b = ''.'' then [] else [b])"
proof -
  have "takeWhile is_sep b = []" using assms by (cases b) (auto simp add: is_sep_def)
  moreover have "dropWhile is_sep b = b" using assms by (cases b) (auto simp add: is_sep_def)
  ultimately show ?thesis
    using assms by (simp add: Path_of_def split_on_single)
qed

lemma truediv_component:
  "CHR ''/'' \<notin> set b \<Longrightarrow>
   truediv p b = (if b = '''' \<or> b = ''.'' then p else Path (root p) (parts p @ [b]))"
  by (cases p) (simp add: truediv_def Path_of_component)

subsection \<open>C6: stripping the suffix\<close>

text \<open>
  Claim C6. Whatever the order in which the set \<open>list_non_empty()\<close> is run through:
  when the filename is \<open>b\<close> followed by the suffix of a format other than \<open>none\<close>, the
  result is the parent joined with \<open>b\<close>, that is the path of the same parent and of
  filename \<open>b\<close>, or the parent itself when nothing but \<open>''\<close> or \<open>.\<close> is left of the
  filename; when the filename ends with no such suffix the result is the path itself.
  \<open>strip_suffix("data.csv.gz")\<close> is the path \<open>data.csv\<close>.
\<close>
theorem strip_suffix_removes_suffix:
  assumes "set order = set list_non_empty"
  shows "(\<forall>c b. c \<noteq> none \<and> path_name (Path_of p) = b @ suffix c \<longrightarrow>
            strip_suffix_in order p = truediv (path_parent (Path_of p)) b
          \<and> (b \<noteq> '''' \<and> b \<noteq> ''.'' \<longrightarrow>
                path_name (strip_suffix_in order p) = b
              \<and> path_parent (strip_suffix_in order p) = path_parent (Path_of p))
          \<and> (b = '''' \<or> b = ''.'' \<longrightarrow> strip_suffix_in order p = path_parent (Path_of p)))
     \<and> ((\<forall>c. c \<noteq> none \<longrightarrow> \<not> endswith (path_name (Path_of p)) (suffix c)) \<longrightarrow>
            strip_suffix_in order p = Path_of p)
     \<and> strip_suffix_in order ''data.csv.gz'' = Path_of ''data.csv''"
proof -
  have ord: "set order = {c. c \<noteq> none}"
    using assms list_non_empty_set by simp
  have hit: "strip_suffix_in order q = truediv (path_parent (Path_of q)) b"
    if "c \<noteq> none" "path_name (Path_of q) = b @ suffix c" for q c b
    unfolding strip_suffix_in_def
    using that ord by (intro strip_suffix_loop_hit [of c]) auto
  have sep: "CHR ''/'' \<notin> set b" if "path_name (Path_of p) = b @ suffix c" for b c
    using path_name_no_sep [of p] that by simp
  have one: "strip_suffix_in order p = truediv (path_parent (Path_of p)) b
          \<and> (b \<noteq> '''' \<and> b \<noteq> ''.'' \<longrightarrow>
                path_name (strip_suffix_in order p) = b
              \<and> path_parent (strip_suffix_in order p) = path_parent (Path_of p))
          \<and> (b = '''' \<or> b = ''.'' \<longrightarrow> strip_suffix_in order p = path_parent (Path_of p))"
    if c: "c \<noteq> none" and n: "path_name (Path_of p) = b @ suffix c" for c b
  proof -
    note h = hit [OF c n]
    note td = truediv_component [OF sep [OF n], of "path_parent (Path_of p)"]
    show ?thesis
      unfolding h td by (simp add: path_name_def path_parent_def)
  qed
  have miss: "strip_suffix_in order p = Path_of p"
    if "\<forall>c. c \<noteq> none \<longrightarrow> \<not> endswith (path_name (Path_of p)) (suffix c)"
    unfolding strip_suffix_in_def
    using that ord by (intro strip_suffix_loop_miss) auto
  have gz: "gz \<noteq> none" by simp
  have n: "path_name (Path_of ''data.csv.gz'') = ''data.csv'' @ suffix gz"
    by (simp add: path_eval suffix_simps)
  have ex: "strip_suffix_in order ''data.csv.gz'' = Path_of ''data.csv''"
    unfolding hit [OF gz n] by (simp add: path_eval)
  show ?thesis
    using one miss ex by blast
qed

text \<open>
  The hypotheses of C6 in the reversed order: \<open>dir/data.csv.gz\<close>, the bare suffix
  \<open>dir/.gz\<close>, and \<open>a.csv\<close>, which ends with no registered suffix.
\<close>

theorem strip_suffix_removes_suffix_witness:
  "set (rev list_non_empty) = set list_non_empty
   \<and> gz \<noteq> none
   \<and> path_name (Path_of ''dir/data.csv.gz'') = ''data.csv'' @ suffix gz
   \<and> strip_suffix_in (rev list_non_empty) ''dir/data.csv.gz'' = Path '''' [''dir'', ''data.csv'']
   \<and> path_name (strip_suffix_in (rev list_non_empty) ''dir/data.csv.gz'') = ''data.csv''
   \<and> path_name (Path_of ''dir/.gz'') = '''' @ suffix gz
   \<and> strip_suffix_in (rev list_non_empty) ''dir/.gz'' = Path '''' [''dir'']
   \<and> \<not> endswith (path_name (Path_of ''a.csv'')) (suffix gz)
   \<and> strip_suffix_in (rev list_non_empty) ''a.csv'' = Path '''' [''a.csv'']"
proof -
  have o: "set (rev list_non_empty) = set list_non_empty" by simp
  note T1 = strip_suffix_removes_suffix [OF o, of "''dir/data.csv.gz''"]
  note T2 = strip_suffix_removes_suffix [OF o, of "''dir/.gz''"]
  note T3 = strip_suffix_removes_suffix [OF o, of "''a.csv''"]
  have g: "gz \<noteq> none" by simp
  have n1: "path_name (Path_of ''dir/data.csv.gz'') = ''data.csv'' @ suffix gz"
    by (simp add: path_eval suffix_simps)
  have n2: "path_name (Path_of ''dir/.gz'') = '''' @ suffix gz"
    by (simp add: path_eval suffix_simps)
  have n3: "\<forall>c. c \<noteq> none \<longrightarrow> \<not> endswith (path_name (Path_of ''a.csv'')) (suffix c)"
  proof (intro allI impI)
    fix c :: CompressionFormat
    assume "c \<noteq> none"
    then show "\<not> endswith (path_name (Path_of ''a.csv'')) (suffix c)"
      by (cases c) (simp_all add: path_eval suffix_simps)
  qed
  have p1: "truediv (path_parent (Path_of ''dir/data.csv.gz'')) ''data.csv'' = Path '''' [''dir'', ''data.csv'']"
    by (simp add: path_eval)
  have p2: "path_parent (Path_of ''dir/.gz'') = Path '''' [''dir'']"
    by (simp add: path_eval)
  have p3: "Path_of ''a.csv'' = Path '''' [''a.csv'']"
    by (simp add: path_eval)
  have a: "strip_suffix_in (rev list_non_empty) ''dir/data.csv.gz'' = Path '''' [''dir'', ''data.csv'']"
    using T1 g n1 p1 by metis
  have a': "path_name (strip_suffix_in (rev list_non_empty) ''dir/data.csv.gz'') = ''data.csv''"
    unfolding a by (simp add: path_name_def)
  have b: "strip_suffix_in (rev list_non_empty) ''dir/.gz'' = Path '''' [''dir'']"
    using T2 g n2 p2 by metis
  have c: "strip_suffix_in (rev list_non_empty) ''a.csv'' = Path '''' [''a.csv'']"
    using T3 n3 p3 by metis
  show ?thesis
    using o g n1 n2 n3 a a' b c by simp
qed

text \<open>The hypothesis of C8 at \<open>gz\<close> and \<open>zstd\<close>.\<close>

theorem suffix_injective_witness:
  "gz \<noteq> none \<and> zstd \<noteq> none \<and> gz \<noteq> zstd
   \<and> suffix gz \<noteq> suffix zstd \<and> suffix gz \<noteq> '''' \<and> suffix zstd \<noteq> ''''"
  using suffix_injective [of gz zstd] by simp

section \<open>Properties of SmartIo\<close>

subsection \<open>C3: the temporary path\<close>

lemma tmp_path_cpython:
  "tmp_path (l\<lparr>isoformat := cpython_isoformat clock\<rparr>) k path extra
     = Inl (ValueError ''Unknown timespec value'')"
  by (simp add: tmp_path_def cpython_isoformat_def timespecs_def)

text \<open>
  Claim C3 asks that \<open>tmp_path\<close> return a hidden sibling path for every path and tag.
  With the \<open>datetime\<close> of CPython it returns for none: \<open>ns\<close> is not a timespec, and
  \<open>isoformat\<close> raises \<open>ValueError\<close> before any path is built, whatever the clock, the
  path and the tag are.
\<close>

theorem tmp_path_raises:
  "tmp_path (l\<lparr>isoformat := cpython_isoformat clock\<rparr>) k (Path_of path) extra
     = Inl (ValueError ''Unknown timespec value'')"
  by (rule tmp_path_cpython)

subsection \<open>C2: writing with the lz4 scheme\<close>

lemma from_path_lz4_example: "from_path ''data.csv.lz4'' = lz4"
  by (simp add: from_path_def path_eval from_suffix_def members_def suffix_simps)

lemma lz4_write_nothing_fails: "\<exists>e. fst (lz4_write_nothing l w p) = Inl e"
  by (simp add: lz4_write_nothing_def split: sum.split prod.split)

lemma lz4_write_nothing_cases:
  obtains e w' where "lz4_write_nothing l w p = (Inl e, w')"
  using lz4_write_nothing_fails [of l w p] by (cases "lz4_write_nothing l w p") auto

text \<open>
  Claim C2 asks that writing and reading back give the text again for every scheme, \<open>lz4\<close>
  among them. Writing \<open>data.csv.lz4\<close> raises \<open>ValueError\<close> with the \<open>datetime\<close> of
  CPython and leaves the world as it was; and with any library at all the call ends in
  an exception, since \<open>fp.write()\<close> is called without the data.
\<close>

theorem write_lz4_fails:
  "write_to (l\<lparr>isoformat := cpython_isoformat clock\<rparr>) w (PathTarget ''data.csv.lz4'')
       content ''w'' atomic None
     = (Inl (ValueError ''Unknown timespec value''), w)
   \<and> (\<exists>e. fst (write_to l w (PathTarget ''data.csv.lz4'') content ''w'' atomic None) = Inl e)"
proof
  show "write_to (l\<lparr>isoformat := cpython_isoformat clock\<rparr>) w (PathTarget ''data.csv.lz4'')
       content ''w'' atomic None = (Inl (ValueError ''Unknown timespec value''), w)"
    by (simp add: write_to_def path_or_buff_compression_def from_path_lz4_example
        Path_of_target_def tmp_path_cpython)
next
  have c: "path_or_buff_compression (PathTarget ''data.csv.lz4'') None = Inr lz4"
    by (simp add: path_or_buff_compression_def from_path_lz4_example)
  show "\<exists>e. fst (write_to l w (PathTarget ''data.csv.lz4'') content ''w'' atomic None) = Inl e"
  proof (cases "tmp_path l 0 (Path_of ''data.csv.lz4'') ''tmp''")
    case (Inl e)
    then show ?thesis by (simp add: write_to_def c Path_of_target_def)
  next
    case (Inr tmp)
    obtain r w1 where h: "with_get_handle l w tmp ''w'' None content None = (r, w1)"
      by (cases "with_get_handle l w tmp ''w'' None content None")
    show ?thesis
    proof (cases r)
      case (Inl e)
      with Inr h show ?thesis by (simp add: write_to_def c Path_of_target_def)
    next
      case r: (Inr u)
      show ?thesis
      proof (cases atomic)
        case False
        obtain e w2 where "lz4_write_nothing l w1 (Path_of ''data.csv.lz4'') = (Inl e, w2)"
          by (rule lz4_write_nothing_cases)
        with Inr h r False show ?thesis by (simp add: write_to_def c Path_of_target_def)
      next
        case True
        show ?thesis
        proof (cases "tmp_path l 1 (Path_of ''data.csv.lz4'') ''tmp''")
          case (Inl e)
          with Inr h r True show ?thesis by (simp add: write_to_def c Path_of_target_def)
        next
          case tmp2: (Inr tmp2)
          obtain e w2 where "lz4_write_nothing l w1 tmp2 = (Inl e, w2)"
            by (rule lz4_write_nothing_cases)
          with Inr h r True tmp2 show ?thesis by (simp add: write_to_def c Path_of_target_def)
        qed
      qed
    qed
  qed
qed

subsection \<open>C7: appending\<close>

text \<open>
  Claim C7. For a path whose scheme resolves, a mode with the letter \<open>a\<close> together with
  the \<open>lz4\<close> scheme or with \<open>atomic\<close> raises \<open>UnsupportedOperationError\<close>, and the world
  after the call is the world before it.
\<close>

theorem write_append_unsupported:
  assumes "CHR ''a'' \<in> set mode"
    and "path_or_buff_compression (PathTarget p) kwargs = Inr c"
    and "c = lz4 \<or> atomic"
  shows "\<exists>msg. write_to l w (PathTarget p) content mode atomic kwargs
           = (Inl (UnsupportedOperationError msg), w)"
  using assms by (auto simp add: write_to_def is_PathLike_def Let_def)

text \<open>
  The hypotheses of C7 at \<open>data.csv.lz4\<close> without \<open>atomic\<close> and at \<open>manifest.txt\<close>
  with \<open>atomic\<close>, both in mode \<open>a\<close>.
\<close>

theorem write_append_unsupported_witness:
  "CHR ''a'' \<in> set ''a''
   \<and> path_or_buff_compression (PathTarget ''data.csv.lz4'') None = Inr lz4
   \<and> write_to cpython_lib manifest_world (PathTarget ''data.csv.lz4'') ''x'' ''a'' False None
        = (Inl (UnsupportedOperationError ''Can't append to lz4 (yet)''), manifest_world)
   \<and> path_or_buff_compression (PathTarget ''manifest.txt'') None = Inr none
   \<and> write_to cpython_lib manifest_world (PathTarget ''manifest.txt'') ''x'' ''a'' True None
        = (Inl (UnsupportedOperationError ''Can't append in atomic write''), manifest_world)"
proof -
  have a: "CHR ''a'' \<in> set ''a''" by simp
  have c1: "path_or_buff_compression (PathTarget ''data.csv.lz4'') None = Inr lz4"
    by (simp add: path_or_buff_compression_def from_path_lz4_example)
  have c2: "path_or_buff_compression (PathTarget ''manifest.txt'') None = Inr none"
    by (simp add: path_or_buff_compression_def from_path_def path_eval from_suffix_def
        members_def suffix_simps)
  obtain m1 where m1: "write_to cpython_lib manifest_world (PathTarget ''data.csv.lz4'') ''x'' ''a'' False None
        = (Inl (UnsupportedOperationError m1), manifest_world)"
    using write_append_unsupported [OF a c1, of False] by blast
  obtain m2 where m2: "write_to cpython_lib manifest_world (PathTarget ''manifest.txt'') ''x'' ''a'' True None
        = (Inl (UnsupportedOperationError m2), manifest_world)"
    using write_append_unsupported [OF a c2, of True] by blast
  have "m1 = ''Can't append to lz4 (yet)''"
    using m1 by (simp add: write_to_def c1)
  moreover have "m2 = ''Can't append in atomic write''"
    using m2 by (simp add: write_to_def c2 is_PathLike_def)
  ultimately show ?thesis using a c1 c2 m1 m2 by simp
qed

subsection \<open>C10: the error of a failed attempt to open\<close>

lemma verify_can_read_files_append:
  "verify_can_read_files l w (xs @ ys) missing_ok attempt =
     (case verify_can_read_files l w xs missing_ok attempt of
        Inl e \<Rightarrow> Inl e
      | Inr u \<Rightarrow> verify_can_read_files l w ys missing_ok attempt)"
proof -
  have "verify_can_read_files l w (xs @ ys) m a =
     (case verify_can_read_files l w xs m a of
        Inl e \<Rightarrow> Inl e
      | Inr u \<Rightarrow> verify_can_read_files l w ys m a)"
    if "(m = True \<or> m = False) \<and> (a = True \<or> a = False)" for m a
    using that
  proof (elim conjE disjE)
    assume "m = True" "a = True"
    then show ?thesis by (induction xs) (simp_all add: Let_def split: sum.split)
  next
    assume "m = True" "a = False"
    then show ?thesis by (induction xs) (simp_all add: Let_def split: sum.split)
  next
    assume "m = False" "a = True"
    then show ?thesis by (induction xs) (simp_all add: Let_def split: sum.split)
  next
    assume "m = False" "a = False"
    then show ?thesis by (induction xs) (simp_all add: Let_def split: sum.split)
  qed
  then show ?thesis by simp
qed

text \<open>
  Claim C10. With \<open>attempt\<close>, when the paths before \<open>p\<close> pass, \<open>p\<close> passes the two
  checks that come before the attempt, and opening \<open>p\<close> for reading fails with an
  \<open>OSError\<close>, the call raises \<open>WritePermissionsError\<close> for \<open>p\<close>, and not
  \<open>ReadPermissionsError\<close>.
\<close>

theorem verify_can_read_files_open_error:
  assumes "verify_can_read_files l w before missing_ok True = Inr ()"
    and "\<not> (path_exists w (Path_of p) \<and> \<not> is_file w (Path_of p))"
    and "\<not> ((\<not> missing_ok \<or> path_exists w (Path_of p)) \<and> \<not> access_R_OK w (Path_of p))"
    and "open_read l w (Path_of p) = Inl e"
    and "is_OSError e"
  shows "verify_can_read_files l w (before @ p # rest) missing_ok True
           = Inl (WritePermissionsError (str_path (Path_of p)))
         \<and> verify_can_read_files l w (before @ p # rest) missing_ok True
           \<noteq> Inl (ReadPermissionsError (str_path (Path_of p)))"
proof -
  have "verify_can_read_files l w (p # rest) missing_ok True
          = Inl (WritePermissionsError (str_path (Path_of p)))"
    using assms(2-5) by (simp add: Let_def)
  then show ?thesis
    using assms(1) by (simp add: verify_can_read_files_append)
qed

text \<open>
  The hypotheses of C10 with \<open>missing_ok\<close>: \<open>manifest.txt\<close> passes, \<open>gone.txt\<close> does
  not exist, so that the checks let it through and \<open>open\<close> raises \<open>FileNotFoundError\<close>.
\<close>

theorem verify_can_read_files_open_error_witness:
  "verify_can_read_files cpython_lib manifest_world [''manifest.txt''] True True = Inr ()
   \<and> open_read cpython_lib manifest_world (Path_of ''gone.txt'') = Inl FileNotFoundError
   \<and> is_OSError FileNotFoundError
   \<and> verify_can_read_files cpython_lib manifest_world ([''manifest.txt''] @ ''gone.txt'' # [''x'']) True True
        = Inl (WritePermissionsError ''gone.txt'')"
proof -
  have gone: "files manifest_world (Path_of ''gone.txt'') = None"
    and there: "files manifest_world (Path_of ''manifest.txt'') = Some (File True True ''old'')"
    by (simp_all add: manifest_world_def path_eval)
  have nofault: "open_fault cpython_lib = (\<lambda>p. None)"
    by (simp add: cpython_lib_def)
  have b: "verify_can_read_files cpython_lib manifest_world [''manifest.txt''] True True = Inr ()"
    by (simp add: Let_def path_exists_def is_file_def access_R_OK_def open_read_def there nofault)
  have c1: "\<not> (path_exists manifest_world (Path_of ''gone.txt'')
              \<and> \<not> is_file manifest_world (Path_of ''gone.txt''))"
    by (simp add: path_exists_def gone)
  have c2: "\<not> ((\<not> True \<or> path_exists manifest_world (Path_of ''gone.txt''))
              \<and> \<not> access_R_OK manifest_world (Path_of ''gone.txt''))"
    by (simp add: path_exists_def gone)
  have cwd: "parent_error manifest_world (Path_of ''gone.txt'') = None"
    by (simp add: parent_error_def manifest_world_def path_eval)
  have o: "open_read cpython_lib manifest_world (Path_of ''gone.txt'') = Inl FileNotFoundError"
    by (simp add: open_read_def gone nofault cwd)
  have e: "is_OSError FileNotFoundError" by simp
  have s: "str_path (Path_of ''gone.txt'') = ''gone.txt''"
    by (simp add: str_path_def path_eval)
  show ?thesis
    using verify_can_read_files_open_error [OF b c1 c2 o e, of "[''x'']"] b o e s by simp
qed

subsection \<open>C9: reading what cannot be read\<close>





subsection \<open>C1: a failure during an atomic write\<close>











end
